theory Spec2Isabelle
  imports Main "HOL-Library.Multiset"
begin

section \<open>Strings and dates of the platform\<close>

text \<open>
  JavaScript strings are modelled as \<^typ>\<open>string\<close>. \<open>toLowerCase\<close> folds the ASCII
  letters \<open>A\<close>..\<open>Z\<close>; every other character is left as it is.
\<close>

definition lowerChar :: "char \<Rightarrow> char" where
  "lowerChar c = (let n = (of_char c :: nat) in if 65 \<le> n \<and> n \<le> 90 then char_of (n + 32) else c)"

definition toLowerCase :: "string \<Rightarrow> string" where
  "toLowerCase s = map lowerChar s"

fun startsWith :: "string \<Rightarrow> string \<Rightarrow> bool" where
  "startsWith s [] = True"
| "startsWith [] (q # qs) = False"
| "startsWith (c # cs) (q # qs) = (c = q \<and> startsWith cs qs)"

text \<open>\<open>s.includes(q)\<close>: \<open>q\<close> occurs in \<open>s\<close> as a contiguous substring.\<close>

fun str_includes :: "string \<Rightarrow> string \<Rightarrow> bool" where
  "str_includes [] q = (q = [])"
| "str_includes (c # cs) q = (startsWith (c # cs) q \<or> str_includes cs q)"

text \<open>
  A string-valued property of a fetched object may be absent or \<open>null\<close> (\<open>None\<close>).
  Such a property is truthy when it is present and not the empty string.
\<close>

definition truthy :: "string option \<Rightarrow> bool" where
  "truthy f = (case f of None \<Rightarrow> False | Some s \<Rightarrow> s \<noteq> [])"

text \<open>
  A \<open>Date\<close> object is its time value in milliseconds since the epoch, or \<open>None\<close> for
  an Invalid Date (time value \<open>NaN\<close>). The platform's parser \<open>new Date(s)\<close> is a parameter
  \<open>parse\<close> of every function that calls it. Relational comparison with an Invalid Date
  is false.
\<close>

type_synonym date = "int option"

type_synonym parser = "string \<Rightarrow> date"

definition date_ge :: "date \<Rightarrow> date \<Rightarrow> bool" where
  "date_ge a b = (case (a, b) of (Some x, Some y) \<Rightarrow> x \<ge> y | _ \<Rightarrow> False)"

definition date_le :: "date \<Rightarrow> date \<Rightarrow> bool" where
  "date_le a b = (case (a, b) of (Some x, Some y) \<Rightarrow> x \<le> y | _ \<Rightarrow> False)"

text \<open>\<open>new Date(v)\<close> for a property that may be absent: \<open>new Date(undefined)\<close> is invalid.\<close>

definition newDate :: "parser \<Rightarrow> string option \<Rightarrow> date" where
  "newDate parse f = (case f of None \<Rightarrow> None | Some s \<Rightarrow> parse s)"

definition msPerDay :: int where
  "msPerDay = 86400000"

text \<open>
  \<open>d.setHours(23, 59, 59, 999)\<close> works on the local time of \<open>d\<close>: with \<open>tz\<close> the offset
  of local time from UTC in milliseconds, it keeps the local day of \<open>d\<close> and sets the time
  within that day to its last millisecond. An Invalid Date stays invalid.
\<close>

definition setHoursEndOfDay :: "int \<Rightarrow> date \<Rightarrow> date" where
  "setHoursEndOfDay tz d =
     (case d of None \<Rightarrow> None
      | Some t \<Rightarrow> (let local = t + tz in Some (local - local mod msPerDay + 86399999 - tz)))"

subsection \<open>A parser for the two ISO forms used in the examples\<close>

text \<open>
  The date-only form \<open>YYYY-MM-DD\<close> (what a date input produces) is read as midnight UTC
  of that day, and \<open>YYYY-MM-DDTHH:MM:SSZ\<close> as that UTC time. Any other string is
  rejected here. The general results below hold for every parser; this one only makes
  the worked examples concrete.
\<close>

definition digitVal :: "char \<Rightarrow> int option" where
  "digitVal c = (let n = (of_char c :: nat) in if 48 \<le> n \<and> n \<le> 57 then Some (int n - 48) else None)"

fun digitsVal :: "string \<Rightarrow> int option" where
  "digitsVal [] = None"
| "digitsVal [c] = digitVal c"
| "digitsVal cs = (case (digitsVal (butlast cs), digitVal (last cs)) of
       (Some a, Some b) \<Rightarrow> Some (10 * a + b) | _ \<Rightarrow> None)"

definition isLeap :: "int \<Rightarrow> bool" where
  "isLeap y = (y mod 4 = 0 \<and> (y mod 100 \<noteq> 0 \<or> y mod 400 = 0))"

definition daysInMonth :: "int \<Rightarrow> int \<Rightarrow> int" where
  "daysInMonth y m =
     (if m = 2 then (if isLeap y then 29 else 28)
      else if m = 4 \<or> m = 6 \<or> m = 9 \<or> m = 11 then 30 else 31)"

definition daysFromCivil :: "int \<Rightarrow> int \<Rightarrow> int \<Rightarrow> int" where
  "daysFromCivil y m d =
     (let y' = (if m \<le> 2 then y - 1 else y);
          era = y' div 400;
          yoe = y' - era * 400;
          doy = (153 * (if m > 2 then m - 3 else m + 9) + 2) div 5 + d - 1;
          doe = yoe * 365 + yoe div 4 - yoe div 100 + doy
      in era * 146097 + doe - 719468)"

definition parseYMD :: "string \<Rightarrow> int option" where
  "parseYMD s =
     (if length s = 10 \<and> s ! 4 = CHR ''-'' \<and> s ! 7 = CHR ''-'' then
        (case (digitsVal (take 4 s), digitsVal (take 2 (drop 5 s)), digitsVal (drop 8 s)) of
           (Some y, Some m, Some d) \<Rightarrow>
             (if 1 \<le> m \<and> m \<le> 12 \<and> 1 \<le> d \<and> d \<le> daysInMonth y m
              then Some (daysFromCivil y m d * msPerDay) else None)
         | _ \<Rightarrow> None)
      else None)"

definition parseHMS :: "string \<Rightarrow> int option" where
  "parseHMS s =
     (if length s = 8 \<and> s ! 2 = CHR '':'' \<and> s ! 5 = CHR '':'' then
        (case (digitsVal (take 2 s), digitsVal (take 2 (drop 3 s)), digitsVal (drop 6 s)) of
           (Some h, Some mi, Some sec) \<Rightarrow>
             (if h \<le> 23 \<and> mi \<le> 59 \<and> sec \<le> 59
              then Some (h * 3600000 + mi * 60000 + sec * 1000) else None)
         | _ \<Rightarrow> None)
      else None)"

definition isoParse :: parser where
  "isoParse s =
     (if length s = 10 then parseYMD s
      else if length s = 20 \<and> s ! 10 = CHR ''T'' \<and> s ! 19 = CHR ''Z'' then
        (case (parseYMD (take 10 s), parseHMS (take 8 (drop 11 s))) of
           (Some d, Some t) \<Rightarrow> Some (d + t) | _ \<Rightarrow> None)
      else None)"

section \<open>The news screen: \<open>handleSearch\<close>\<close>

text \<open>
  A news record as the backend delivers it. Every property the filter reads may be
  absent or \<open>null\<close>.
\<close>

record article =
  title :: string
  category :: "string option"
  severity :: "string option"
  cve :: "string option"
  published_date :: "string option"

text \<open>The filter state of the screen (the \<open>useState\<close> variables that \<open>handleSearch\<close> reads).\<close>

record news_filters =
  selectedCategory :: string
  selectedSeverity :: string
  selectedCVE :: string
  timeFilter :: string
  startDate :: string
  endDate :: string
  useDateRange :: bool

text \<open>
  What \<open>handleSearch\<close> obtains from the platform: the parser, the offset of local time,
  and the three instants it derives from \<open>new Date()\<close> with \<open>setDate\<close> and \<open>setMonth\<close>.
\<close>

record platform =
  parseDate :: parser
  tzOffset :: int
  oneDayAgo :: int
  oneWeekAgo :: int
  oneMonthAgo :: int

text \<open>\<open>startDate ? new Date(startDate) : null\<close>; the outer \<open>None\<close> is \<open>null\<close>.\<close>

definition startDateObj :: "platform \<Rightarrow> news_filters \<Rightarrow> date option" where
  "startDateObj pf f = (if startDate f = [] then None else Some (parseDate pf (startDate f)))"

text \<open>The end date, moved to the end of its day when it is not \<open>null\<close>.\<close>

definition endDateObj :: "platform \<Rightarrow> news_filters \<Rightarrow> date option" where
  "endDateObj pf f =
     (if endDate f = [] then None
      else Some (setHoursEndOfDay (tzOffset pf) (parseDate pf (endDate f))))"

text \<open>Clauses 1 to 3: one categorical field against its selection.\<close>

definition fieldMatch :: "string \<Rightarrow> string option \<Rightarrow> bool" where
  "fieldMatch selected field =
     (selected = ''All'' \<or>
      (truthy field \<and> (case field of None \<Rightarrow> False
                         | Some v \<Rightarrow> toLowerCase v = toLowerCase selected)))"

text \<open>The date test applied to a record whose date parsed to the instant \<open>t\<close>.\<close>

definition withinTimeFilter :: "platform \<Rightarrow> news_filters \<Rightarrow> int \<Rightarrow> bool" where
  "withinTimeFilter pf f t =
     (if timeFilter f = ''Custom'' \<and> useDateRange f then
        (case (startDateObj pf f, endDateObj pf f) of
           (Some s, Some e) \<Rightarrow> date_ge (Some t) s \<and> date_le (Some t) e
         | (Some s, None) \<Rightarrow> date_ge (Some t) s
         | (None, Some e) \<Rightarrow> date_le (Some t) e
         | (None, None) \<Rightarrow> True)
      else if timeFilter f = ''Latest'' then t \<ge> oneDayAgo pf
      else if timeFilter f = ''Last Week'' then t \<ge> oneWeekAgo pf
      else if timeFilter f = ''Last Month'' then t \<ge> oneMonthAgo pf
      else True)"

text \<open>
  Clause 4. \<open>dateMatch\<close> starts as \<open>true\<close> and is only touched when \<open>published_date\<close>
  is truthy. For an unparsable date the call \<open>articleDate.toISOString()\<close> in the logging
  statement throws a \<open>RangeError\<close>, and the \<open>catch\<close> block sets \<open>dateMatch = false\<close>.
\<close>

definition dateMatch :: "platform \<Rightarrow> news_filters \<Rightarrow> article \<Rightarrow> bool" where
  "dateMatch pf f a =
     (case published_date a of
        None \<Rightarrow> True
      | Some s \<Rightarrow>
          if s = [] then True
          else (case parseDate pf s of
                  None \<Rightarrow> False
                | Some t \<Rightarrow> withinTimeFilter pf f t))"

text \<open>The callback of \<open>news.filter\<close>; a \<open>null\<close> element of the array is skipped.\<close>

definition articlePasses :: "platform \<Rightarrow> news_filters \<Rightarrow> article option \<Rightarrow> bool" where
  "articlePasses pf f x =
     (case x of
        None \<Rightarrow> False
      | Some a \<Rightarrow>
          fieldMatch (selectedCategory f) (category a) \<and>
          fieldMatch (selectedSeverity f) (severity a) \<and>
          fieldMatch (selectedCVE f) (cve a) \<and>
          dateMatch pf f a)"

text \<open>
  The comparator handed to \<open>sort\<close>: a negative result puts \<open>a\<close> before \<open>b\<close>, a positive
  one after it.
\<close>

definition compareByDate :: "parser \<Rightarrow> article \<Rightarrow> article \<Rightarrow> int" where
  "compareByDate parse a b =
     (if \<not> truthy (published_date a) then 1
      else if \<not> truthy (published_date b) then - 1
      else (case newDate parse (published_date a) of
              None \<Rightarrow> 1
            | Some dateA \<Rightarrow>
                (case newDate parse (published_date b) of
                   None \<Rightarrow> - 1
                 | Some dateB \<Rightarrow> dateB - dateA)))"

text \<open>
  \<open>Array.prototype.sort\<close> is stable. It is modelled as insertion sort: the elements are
  taken from left to right, and each one moves left past every element that the
  comparator puts strictly after it. \<open>insert_cmp\<close> works on the sorted prefix in reverse
  (its head is the rightmost element).
\<close>

fun insert_cmp :: "('a \<Rightarrow> 'a \<Rightarrow> int) \<Rightarrow> 'a \<Rightarrow> 'a list \<Rightarrow> 'a list" where
  "insert_cmp c x [] = [x]"
| "insert_cmp c x (y # ys) = (if c x y < 0 then y # insert_cmp c x ys else x # y # ys)"

definition sort_cmp :: "('a \<Rightarrow> 'a \<Rightarrow> int) \<Rightarrow> 'a list \<Rightarrow> 'a list" where
  "sort_cmp c xs = rev (foldl (\<lambda>acc x. insert_cmp c x acc) [] xs)"

text \<open>The elements of \<open>news\<close> that the callback keeps, in their order.\<close>

definition keptArticles :: "platform \<Rightarrow> news_filters \<Rightarrow> article option list \<Rightarrow> article list" where
  "keptArticles pf f news = List.map_filter (\<lambda>x. if articlePasses pf f x then x else None) news"

text \<open>
  \<open>handleSearch\<close> returns early, leaving \<open>filteredNews\<close> as it was (\<open>None\<close>), when there
  is no news; otherwise it stores the filtered, sorted list (\<open>Some\<close>).
\<close>

definition handleSearch :: "platform \<Rightarrow> news_filters \<Rightarrow> article option list \<Rightarrow> article list option" where
  "handleSearch pf f news =
     (if news = [] then None
      else Some (sort_cmp (compareByDate (parseDate pf)) (keptArticles pf f news)))"

section \<open>The phishing-route screen: \<open>filteredNews\<close>\<close>

text \<open>
  This screen reads the category, severity and CVE selections and the two date strings
  of \<^typ>\<open>news_filters\<close>; it has no time-filter selector. Its records are typed, so the
  array holds no \<open>null\<close>. A record without a date, or with an unparsable one, is
  rejected before the range is looked at.
\<close>

definition isWithinDateRange :: "parser \<Rightarrow> news_filters \<Rightarrow> int \<Rightarrow> bool" where
  "isWithinDateRange parse f publishedDate =
     ((startDate f = [] \<or> date_le (parse (startDate f)) (Some publishedDate)) \<and>
      (endDate f = [] \<or> date_ge (parse (endDate f)) (Some publishedDate)))"

definition routeArticlePasses :: "parser \<Rightarrow> news_filters \<Rightarrow> article \<Rightarrow> bool" where
  "routeArticlePasses parse f a =
     (let isWithinCategory = (selectedCategory f = ''All'' \<or> category a = Some (selectedCategory f));
          isWithinSeverity = (selectedSeverity f = ''All'' \<or> severity a = Some (selectedSeverity f));
          isWithinCVE = (selectedCVE f = ''All'' \<or> cve a = Some (selectedCVE f))
      in if \<not> truthy (published_date a) then False
         else (case newDate parse (published_date a) of
                 None \<Rightarrow> False
               | Some publishedDate \<Rightarrow>
                   isWithinCategory \<and> isWithinSeverity \<and> isWithinCVE \<and>
                   isWithinDateRange parse f publishedDate))"

definition filteredNews :: "parser \<Rightarrow> news_filters \<Rightarrow> article list \<Rightarrow> article list" where
  "filteredNews parse f news = filter (routeArticlePasses parse f) news"

section \<open>The phishing dashboard: \<open>fetchPhishingSites\<close>\<close>

record phishing_site =
  site_id :: string
  url :: string
  detectedDate :: "string option"
  similarityScore :: int
  status :: string
  targetPage :: string

record phishing_filters =
  timeRange :: string
  searchQuery :: string
  thresholdScore :: int
  targetFilter :: string
  activeTab :: string

text \<open>
  The filters are applied one after the other, each to the result of the one before.
  \<open>cutoff\<close> is the platform's \<open>cutoffDate\<close> for a given \<open>timeRange\<close>: today moved back
  by \<open>parseInt(timeRange)\<close> days.
\<close>

definition inTimeRange :: "parser \<Rightarrow> (string \<Rightarrow> date) \<Rightarrow> phishing_filters \<Rightarrow> phishing_site \<Rightarrow> bool" where
  "inTimeRange parse cutoff f site = date_ge (newDate parse (detectedDate site)) (cutoff (timeRange f))"

definition matchesSearch :: "phishing_filters \<Rightarrow> phishing_site \<Rightarrow> bool" where
  "matchesSearch f site =
     (let query = toLowerCase (searchQuery f)
      in str_includes (toLowerCase (url site)) query \<or>
         str_includes (toLowerCase (targetPage site)) query)"

definition fetchPhishingSites ::
  "parser \<Rightarrow> (string \<Rightarrow> date) \<Rightarrow> phishing_filters \<Rightarrow> phishing_site list \<Rightarrow> phishing_site list" where
  "fetchPhishingSites parse cutoff f mockPhishingSites =
     (let filtered = mockPhishingSites;
          filtered = (if timeRange f \<noteq> ''all''
                      then filter (inTimeRange parse cutoff f) filtered else filtered);
          filtered = (if searchQuery f \<noteq> []
                      then filter (matchesSearch f) filtered else filtered);
          filtered = filter (\<lambda>site. similarityScore site \<ge> thresholdScore f) filtered;
          filtered = (if targetFilter f \<noteq> ''all''
                      then filter (\<lambda>site. targetPage site = targetFilter f) filtered else filtered);
          filtered = (if activeTab f \<noteq> ''all'' then
                        (if activeTab f = ''detected''
                         then filter (\<lambda>site. status site = ''active'' \<or> status site = ''monitoring'') filtered
                         else if activeTab f = ''mitigated''
                         then filter (\<lambda>site. status site = ''taken-down'') filtered
                         else filtered)
                      else filtered)
      in filtered)"

section \<open>Pagination\<close>

text \<open>
  The screens that page their results (\<open>fetchSites\<close>, \<open>fetchThreats\<close>) send \<open>page\<close> and
  \<open>page_size\<close> to the backend and compute the number of pages from the total it reports:
  \<open>Math.ceil(totalCount / pageSize) || 1\<close> with \<open>pageSize = 10\<close> on the phishing screen,
  \<open>Math.ceil(data.total / 10)\<close> on the threats screen.
\<close>

definition ceilDiv :: "nat \<Rightarrow> nat \<Rightarrow> nat" where
  "ceilDiv a b = (a + b - 1) div b"

definition pageSize :: nat where
  "pageSize = 10"

definition totalPagesSites :: "nat \<Rightarrow> nat" where
  "totalPagesSites totalCount = (let n = ceilDiv totalCount pageSize in if n = 0 then 1 else n)"

definition totalPagesThreats :: "nat \<Rightarrow> nat" where
  "totalPagesThreats totalCount = ceilDiv totalCount 10"

text \<open>
  Modelled from the spec: the slicing of a result into pages happens in the backend
  behind \<open>/api/phishing/sites\<close> and \<open>/api/threats\<close>, which is not among the sources.
  The specification (4.1) makes pages 1-indexed and of fixed size, and a page beyond the
  last one empty: with page size \<open>n\<close>, page \<open>p\<close> holds the records at positions
  \<open>(p - 1) * n\<close> up to \<open>p * n\<close>.
\<close>

definition pageOfRecords :: "'a list \<Rightarrow> nat \<Rightarrow> nat \<Rightarrow> 'a list" where
  "pageOfRecords matches page n = take n (drop ((page - 1) * n) matches)"

text \<open>
  Modelled from the spec: the contract
  \<open>filter(records, criteria, sort, page, pageSize) -> (pageOfRecords, totalMatches)\<close> of
  the Result Filter (4.1), whose paging part is not among the sources. The criteria are
  the predicate \<open>passes\<close>, the sort order is the comparator \<open>cmp\<close>. The contract has no
  error result.
\<close>

definition resultFilter ::
  "('a \<Rightarrow> bool) \<Rightarrow> ('a \<Rightarrow> 'a \<Rightarrow> int) \<Rightarrow> 'a list \<Rightarrow> nat \<Rightarrow> nat \<Rightarrow> 'a list \<times> nat" where
  "resultFilter passes cmp records page n =
     (let matches = sort_cmp cmp (filter passes records)
      in (pageOfRecords matches page n, length matches))"

section \<open>The phishing screen: polling the progress of a scan\<close>

text \<open>
  The part of the page that the poll touches: the intervals that are running, the id
  the next \<open>setInterval\<close> returns, the state variables \<open>scanInterval\<close> and
  \<open>scanInProgress\<close>, and two counters: the scan-progress requests issued, and the
  refreshes (\<open>fetchSites(); fetchStats();\<close>) triggered by a poll.
\<close>

record scan_page =
  intervals :: "nat list"
  nextInterval :: nat
  scanInterval :: "nat option"
  scanInProgress :: bool
  requests :: nat
  refreshes :: nat

text \<open>What a scan-progress request yields: a snapshot with its status, or a failure.\<close>

datatype poll_result = Snapshot string | Failed

definition clearInterval :: "nat \<Rightarrow> scan_page \<Rightarrow> scan_page" where
  "clearInterval i p = p\<lparr>intervals := removeAll i (intervals p)\<rparr>"

text \<open>
  \<open>scanInterval\<close> is a \<open>const\<close> of the render in which a function of the component was
  created; a state update does not change it, it causes a new render with a new
  constant. So every function below that reads \<open>scanInterval\<close> takes the value of its
  own render as the argument \<open>captured\<close>. The id \<open>0\<close> would be falsy; ids start at 1.

  \<open>if (scanInterval) { clearInterval(scanInterval); setScanInterval(null); }\<close>:
\<close>

definition stopPolling :: "nat option \<Rightarrow> scan_page \<Rightarrow> scan_page" where
  "stopPolling captured p =
     (case captured of
        None \<Rightarrow> p
      | Some i \<Rightarrow> if i = 0 then p else (clearInterval i p)\<lparr>scanInterval := None\<rparr>)"

definition checkScanProgress :: "nat option \<Rightarrow> poll_result \<Rightarrow> scan_page \<Rightarrow> scan_page" where
  "checkScanProgress captured r p0 =
     (let p = p0\<lparr>requests := Suc (requests p0)\<rparr>
      in case r of
           Failed \<Rightarrow> (stopPolling captured p)\<lparr>scanInProgress := False\<rparr>
         | Snapshot progressStatus \<Rightarrow>
             if progressStatus = ''completed'' \<or> progressStatus = ''error''
             then (let q = stopPolling captured p
                   in q\<lparr>scanInProgress := False, refreshes := Suc (refreshes q)\<rparr>)
             else p)"

text \<open>
  \<open>startScan\<close> after the scan request succeeded. The handler on the button is the one of
  the latest render, so its \<open>scanInterval\<close> is the current state. It returns the timer
  it created: the id of the interval, and the \<open>scanInterval\<close> that the callback of the
  interval will see in \<open>checkScanProgress\<close>.
\<close>

definition startScan :: "scan_page \<Rightarrow> (nat \<times> nat option) \<times> scan_page" where
  "startScan p =
     (let interval = nextInterval p
      in ((interval, scanInterval p),
          p\<lparr>scanInProgress := True,
            intervals := interval # intervals p,
            nextInterval := Suc interval,
            scanInterval := Some interval\<rparr>))"

text \<open>The interval fires, if it is still running, and the request yields \<open>r\<close>.\<close>

definition tick :: "nat \<times> nat option \<Rightarrow> poll_result \<Rightarrow> scan_page \<Rightarrow> scan_page" where
  "tick timer r p =
     (if fst timer \<in> set (intervals p) then checkScanProgress (snd timer) r p else p)"

definition runPolls :: "nat \<times> nat option \<Rightarrow> poll_result list \<Rightarrow> scan_page \<Rightarrow> scan_page" where
  "runPolls timer rs p = foldl (\<lambda>q r. tick timer r q) p rs"

text \<open>
  The cleanup returned by the mount effect (dependency list \<open>[]\<close>) belongs to the first
  render: \<open>if (scanInterval) { clearInterval(scanInterval); }\<close> with the initial state.
\<close>

definition unmountCleanup :: "nat option \<Rightarrow> scan_page \<Rightarrow> scan_page" where
  "unmountCleanup captured p =
     (case captured of
        None \<Rightarrow> p
      | Some i \<Rightarrow> if i = 0 then p else clearInterval i p)"

text \<open>
  The page after mounting, with \<open>init\<close> the initial value of \<open>scanInterval\<close>. The
  declaration of that state variable is not part of the available source; \<open>null\<close>
  (\<open>None\<close>) is the value that \<open>setScanInterval(null)\<close> gives it when no interval runs.
\<close>

definition mounted :: "nat option \<Rightarrow> scan_page" where
  "mounted init =
     \<lparr>intervals = [], nextInterval = 1, scanInterval = init,
      scanInProgress = False, requests = 0, refreshes = 0\<rparr>"

text \<open>Mount, start a scan, let the interval fire on the given results.\<close>

definition scanSession :: "poll_result list \<Rightarrow> scan_page" where
  "scanSession rs = (let (timer, p) = startScan (mounted None) in runPolls timer rs p)"

text \<open>
  Mount (which creates the cleanup), start a scan, poll with the results \<open>rs1\<close>,
  unmount, and let the period of the interval pass again, once for each result of \<open>rs2\<close>.
\<close>

definition unmountSession :: "poll_result list \<Rightarrow> poll_result list \<Rightarrow> scan_page" where
  "unmountSession rs1 rs2 =
     (let p0 = mounted None;
          cleanup = unmountCleanup (scanInterval p0);
          (timer, p) = startScan p0
      in runPolls timer rs2 (cleanup (runPolls timer rs1 p)))"

section \<open>Arrays in a store\<close>

text \<open>
  To follow what the filters do to the arrays they are given, arrays live in a store:
  an address holds the elements of the array allocated there, and \<open>nextAddr\<close> is the first
  address not yet in use. \<open>filter\<close> and the spread \<open>[...xs]\<close> allocate a new array;
  \<open>sort\<close> reorders the array it is called on, in place. None of the callbacks assigns
  to a property of a record, so the store has no operation that changes an element.
\<close>

record 'a store =
  arrays :: "nat \<Rightarrow> 'a list"
  nextAddr :: nat

definition alloc :: "'a list \<Rightarrow> 'a store \<Rightarrow> nat \<times> 'a store" where
  "alloc xs h = (nextAddr h, h\<lparr>arrays := (arrays h)(nextAddr h := xs), nextAddr := Suc (nextAddr h)\<rparr>)"

definition filterArray :: "('a \<Rightarrow> bool) \<Rightarrow> nat \<Rightarrow> 'a store \<Rightarrow> nat \<times> 'a store" where
  "filterArray keep a h = alloc (filter keep (arrays h a)) h"

definition spreadArray :: "nat \<Rightarrow> 'a store \<Rightarrow> nat \<times> 'a store" where
  "spreadArray a h = alloc (arrays h a) h"

definition sortArray :: "('a \<Rightarrow> 'a \<Rightarrow> int) \<Rightarrow> nat \<Rightarrow> 'a store \<Rightarrow> nat \<times> 'a store" where
  "sortArray c a h = (a, h\<lparr>arrays := (arrays h)(a := sort_cmp c (arrays h a))\<rparr>)"

text \<open>
  The comparator on the elements of a news array. The array that is sorted comes out of
  the filter and holds no \<open>null\<close>, so the second equation is never used there.
\<close>

fun compareElems :: "parser \<Rightarrow> article option \<Rightarrow> article option \<Rightarrow> int" where
  "compareElems parse (Some a) (Some b) = compareByDate parse a b"
| "compareElems parse x y = 0"

text \<open>The news screen with its two state variables that hold arrays.\<close>

record home_page =
  newsRef :: nat
  filteredNewsRef :: nat
  heap :: "article option store"

definition handleSearch_store :: "platform \<Rightarrow> news_filters \<Rightarrow> home_page \<Rightarrow> home_page" where
  "handleSearch_store pf f pg =
     (if arrays (heap pg) (newsRef pg) = [] then pg
      else (let (filtered, h1) = filterArray (articlePasses pf f) (newsRef pg) (heap pg);
                (copy, h2) = spreadArray filtered h1;
                (sortedResults, h3) = sortArray (compareElems (parseDate pf)) copy h2
            in pg\<lparr>filteredNewsRef := sortedResults, heap := h3\<rparr>))"

definition filteredNews_store ::
  "parser \<Rightarrow> news_filters \<Rightarrow> nat \<Rightarrow> article store \<Rightarrow> nat \<times> article store" where
  "filteredNews_store parse f newsArr h = filterArray (routeArticlePasses parse f) newsArr h"

definition fetchPhishingSites_store ::
  "parser \<Rightarrow> (string \<Rightarrow> date) \<Rightarrow> phishing_filters \<Rightarrow> nat \<Rightarrow> phishing_site store
     \<Rightarrow> nat \<times> phishing_site store" where
  "fetchPhishingSites_store parse cutoff f mockPhishingSites h =
     (let (filtered, h) = spreadArray mockPhishingSites h;
          (filtered, h) = (if timeRange f \<noteq> ''all''
                           then filterArray (inTimeRange parse cutoff f) filtered h
                           else (filtered, h));
          (filtered, h) = (if searchQuery f \<noteq> []
                           then filterArray (matchesSearch f) filtered h
                           else (filtered, h));
          (filtered, h) = filterArray (\<lambda>site. similarityScore site \<ge> thresholdScore f) filtered h;
          (filtered, h) = (if targetFilter f \<noteq> ''all''
                           then filterArray (\<lambda>site. targetPage site = targetFilter f) filtered h
                           else (filtered, h));
          (filtered, h) = (if activeTab f \<noteq> ''all'' then
                             (if activeTab f = ''detected''
                              then filterArray (\<lambda>site. status site = ''active'' \<or> status site = ''monitoring'') filtered h
                              else if activeTab f = ''mitigated''
                              then filterArray (\<lambda>site. status site = ''taken-down'') filtered h
                              else (filtered, h))
                           else (filtered, h))
      in (filtered, h))"

text \<open>
  One store extends another when every array of the first is still there, unchanged.
\<close>

definition preserves :: "'a store \<Rightarrow> 'a store \<Rightarrow> bool" where
  "preserves h h' = (nextAddr h \<le> nextAddr h' \<and> (\<forall>a < nextAddr h. arrays h' a = arrays h a))"

section \<open>Notions used in the statements, and example data\<close>

text \<open>A record has a parseable timestamp when the property is truthy and parses.\<close>

definition parseable :: "parser \<Rightarrow> article \<Rightarrow> bool" where
  "parseable parse a = (truthy (published_date a) \<and> newDate parse (published_date a) \<noteq> None)"

definition timeOf :: "parser \<Rightarrow> article \<Rightarrow> int" where
  "timeOf parse a = (case newDate parse (published_date a) of None \<Rightarrow> 0 | Some t \<Rightarrow> t)"

text \<open>
  \<open>a\<close> may stand before \<open>b\<close> in a newest-first list with the undated records last:
  if \<open>b\<close> has a parseable timestamp then so has \<open>a\<close>, and \<open>a\<close> is not older.
\<close>

definition newestFirst :: "parser \<Rightarrow> article \<Rightarrow> article \<Rightarrow> bool" where
  "newestFirst parse a b =
     (parseable parse b \<longrightarrow> parseable parse a \<and> timeOf parse a \<ge> timeOf parse b)"

text \<open>
  The timestamp \<open>d\<close> parses, and the instant it denotes satisfies the window \<open>W\<close>.
\<close>

definition timestampWithin :: "(int \<Rightarrow> bool) \<Rightarrow> parser \<Rightarrow> string option \<Rightarrow> bool" where
  "timestampWithin W parse d = (case newDate parse d of None \<Rightarrow> False | Some t \<Rightarrow> W t)"

definition dated :: "string \<Rightarrow> string option \<Rightarrow> article" where
  "dated t d = \<lparr>title = t, category = None, severity = None, cve = None, published_date = d\<rparr>"


definition noFilters :: news_filters where
  "noFilters =
     \<lparr>selectedCategory = ''All'', selectedSeverity = ''All'', selectedCVE = ''All'',
      timeFilter = ''Latest'', startDate = [], endDate = [], useDateRange = False\<rparr>"

text \<open>
  A platform whose clock stands at 2025-02-21T00:00:00Z, with local time \<open>tz\<close>
  milliseconds ahead of UTC.
\<close>

definition platformAt :: "int \<Rightarrow> platform" where
  "platformAt tz =
     \<lparr>parseDate = isoParse, tzOffset = tz,
      oneDayAgo = 1740009600000, oneWeekAgo = 1739491200000, oneMonthAgo = 1737417600000\<rparr>"

definition mockSite :: "string \<Rightarrow> string option \<Rightarrow> int \<Rightarrow> string \<Rightarrow> string \<Rightarrow> phishing_site" where
  "mockSite u d score st tp =
     \<lparr>site_id = u, url = u, detectedDate = d, similarityScore = score, status = st, targetPage = tp\<rparr>"

text \<open>The cutoff of the example clock: 90, 30 and 7 days before 2025-03-01T00:00:00Z.\<close>

definition cutoffAt :: "string \<Rightarrow> date" where
  "cutoffAt r =
     (if r = ''7'' then Some 1740182400000
      else if r = ''30'' then Some 1738195200000
      else if r = ''90'' then Some 1733011200000
      else None)"

text \<open>A news record with every property set, and selections in another letter case.\<close>

definition advisory :: article where
  "advisory =
     \<lparr>title = ''Ransomware wave'', category = Some ''Malware'', severity = Some ''Critical'',
      cve = Some ''CVE-2025-0001'', published_date = Some ''2025-02-20T12:00:00Z''\<rparr>"

definition strictFilters :: news_filters where
  "strictFilters =
     \<lparr>selectedCategory = ''malware'', selectedSeverity = ''CRITICAL'',
      selectedCVE = ''cve-2025-0001'', timeFilter = ''Last Week'',
      startDate = [], endDate = [], useDateRange = False\<rparr>"

definition exactFilters :: news_filters where
  "exactFilters =
     \<lparr>selectedCategory = ''Malware'', selectedSeverity = ''Critical'',
      selectedCVE = ''CVE-2025-0001'', timeFilter = ''Custom'',
      startDate = ''2025-02-01'', endDate = ''2025-02-28'', useDateRange = True\<rparr>"

text \<open>The mock data of the phishing dashboard, reduced to the fields the filter reads.\<close>

definition mockPhishingSites :: "phishing_site list" where
  "mockPhishingSites =
     [\<lparr>site_id = ''ps-001'', url = ''https://tam-m-abudhabi.com'',
       detectedDate = Some ''2025-02-15T08:30:00Z'', similarityScore = 92,
       status = ''active'', targetPage = ''main''\<rparr>,
      \<lparr>site_id = ''ps-002'', url = ''https://tamm.service-abudhabi.net'',
       detectedDate = Some ''2025-02-18T14:45:00Z'', similarityScore = 88,
       status = ''active'', targetPage = ''login''\<rparr>,
      \<lparr>site_id = ''ps-003'', url = ''https://tamm-abudhabi-services.org'',
       detectedDate = Some ''2025-02-20T09:10:00Z'', similarityScore = 76,
       status = ''monitoring'', targetPage = ''payments''\<rparr>,
      \<lparr>site_id = ''ps-004'', url = ''https://tammabudhabiportal.com'',
       detectedDate = Some ''2025-02-22T11:25:00Z'', similarityScore = 85,
       status = ''taken-down'', targetPage = ''main''\<rparr>,
      \<lparr>site_id = ''ps-005'', url = ''https://abudhabi-tamm-gov.site'',
       detectedDate = Some ''2025-02-24T15:20:00Z'', similarityScore = 65,
       status = ''monitoring'', targetPage = ''business-services''\<rparr>]"

definition searchFilters :: phishing_filters where
  "searchFilters =
     \<lparr>timeRange = ''30'', searchQuery = ''TAM'', thresholdScore = 60, targetFilter = ''main'',
      activeTab = ''detected''\<rparr>"

text \<open>The custom range with only an end date, 20 February 2025.\<close>

definition rangeFilters :: news_filters where
  "rangeFilters = noFilters\<lparr>timeFilter := ''Custom'', useDateRange := True, endDate := ''2025-02-20''\<rparr>"

text \<open>
  The news screen right after the first load: \<open>setNews(data)\<close> and
  \<open>setFilteredNews(data)\<close> have stored the same array in both state variables.
\<close>

definition loadedPage :: home_page where
  "loadedPage =
     \<lparr>newsRef = 0, filteredNewsRef = 0,
      heap = \<lparr>arrays = (\<lambda>a. if a = 0 then [Some (dated ''undated'' None), None, Some advisory] else []),
              nextAddr = 1\<rparr>\<rparr>"

definition routeStore :: "article store" where
  "routeStore =
     \<lparr>arrays = (\<lambda>a. if a = 0 then [dated ''undated'' None, advisory] else []), nextAddr = 1\<rparr>"

definition mockStore :: "phishing_site store" where
  "mockStore = \<lparr>arrays = (\<lambda>a. if a = 0 then mockPhishingSites else []), nextAddr = 1\<rparr>"

section \<open>Results\<close>

subsection \<open>Sorting by date\<close>

lemma compareByDate_neg: "compareByDate p x y < 0 \<Longrightarrow> newestFirst p x y"
  by (auto simp: compareByDate_def newestFirst_def parseable_def timeOf_def
           split: option.splits if_splits)

lemma compareByDate_nonneg: "\<not> compareByDate p x y < 0 \<Longrightarrow> newestFirst p y x"
  by (auto simp: compareByDate_def newestFirst_def parseable_def timeOf_def
           split: option.splits if_splits)

lemma newestFirst_trans: "newestFirst p a b \<Longrightarrow> newestFirst p b c \<Longrightarrow> newestFirst p a c"
  by (auto simp: newestFirst_def)

lemma set_insert_cmp: "set (insert_cmp c x ys) = insert x (set ys)"
  by (induction ys) auto

lemma length_insert_cmp: "length (insert_cmp c x ys) = Suc (length ys)"
  by (induction ys) auto

lemma set_foldl_insert_cmp:
  "set (foldl (\<lambda>acc x. insert_cmp c x acc) acc xs) = set acc \<union> set xs"
  by (induction xs arbitrary: acc) (auto simp: set_insert_cmp)

lemma set_sort_cmp: "set (sort_cmp c xs) = set xs"
  by (simp add: sort_cmp_def set_foldl_insert_cmp)

lemma length_foldl_insert_cmp:
  "length (foldl (\<lambda>acc x. insert_cmp c x acc) acc xs) = length acc + length xs"
  by (induction xs arbitrary: acc) (auto simp: length_insert_cmp)

lemma length_sort_cmp: "length (sort_cmp c xs) = length xs"
  by (simp add: sort_cmp_def length_foldl_insert_cmp)

text \<open>Inserting into a reversed newest-first list keeps it one.\<close>

lemma insert_cmp_newestFirst:
  assumes "sorted_wrt (\<lambda>later earlier. newestFirst p earlier later) ys"
  shows "sorted_wrt (\<lambda>later earlier. newestFirst p earlier later)
           (insert_cmp (compareByDate p) x ys)"
  using assms
proof (induction ys)
  case Nil
  then show ?case by simp
next
  case (Cons y ys)
  show ?case
  proof (cases "compareByDate p x y < 0")
    case True
    then have "newestFirst p x y" by (rule compareByDate_neg)
    with Cons True show ?thesis by (auto simp: set_insert_cmp)
  next
    case False
    then have yx: "newestFirst p y x" by (rule compareByDate_nonneg)
    have "\<forall>z\<in>set ys. newestFirst p z x"
    proof
      fix z assume "z \<in> set ys"
      with Cons.prems have "newestFirst p z y" by simp
      with yx show "newestFirst p z x" by (blast intro: newestFirst_trans)
    qed
    with Cons.prems False yx show ?thesis by simp
  qed
qed

lemma foldl_insert_cmp_newestFirst:
  "sorted_wrt (\<lambda>later earlier. newestFirst p earlier later) acc \<Longrightarrow>
   sorted_wrt (\<lambda>later earlier. newestFirst p earlier later)
     (foldl (\<lambda>acc x. insert_cmp (compareByDate p) x acc) acc xs)"
  by (induction xs arbitrary: acc) (simp_all add: insert_cmp_newestFirst)

lemma sort_cmp_newestFirst: "sorted_wrt (newestFirst p) (sort_cmp (compareByDate p) xs)"
proof -
  have "sorted_wrt (\<lambda>later earlier. newestFirst p earlier later)
          (foldl (\<lambda>acc x. insert_cmp (compareByDate p) x acc) [] xs)"
    by (rule foldl_insert_cmp_newestFirst) simp
  then show ?thesis by (simp add: sort_cmp_def sorted_wrt_rev)
qed

lemma sort_example_sorted_input:
  "sort_cmp (compareByDate isoParse)
     [dated ''Feb-20'' (Some ''2025-02-20''), dated ''Feb-10'' (Some ''2025-02-10''),
      dated ''missing'' None]
   = [dated ''Feb-20'' (Some ''2025-02-20''), dated ''Feb-10'' (Some ''2025-02-10''),
      dated ''missing'' None]"
  by code_simp

lemma sort_example_shuffled_input:
  "sort_cmp (compareByDate isoParse)
     [dated ''missing'' None, dated ''Feb-10'' (Some ''2025-02-10''),
      dated ''Feb-20'' (Some ''2025-02-20'')]
   = [dated ''Feb-20'' (Some ''2025-02-20''), dated ''Feb-10'' (Some ''2025-02-10''),
      dated ''missing'' None]"
  by code_simp

text \<open>
  C3. The comparator puts a record with a parseable timestamp before one whose
  timestamp is missing or invalid, and of two records with parseable timestamps the
  newer one first; the sorted list has all parseable timestamps first, newest first;
  and the list Feb-20, Feb-10, missing comes out in exactly this order, whether it
  goes in sorted or reversed.
\<close>

theorem compareByDate_undated_last:
  "(parseable parse a \<and> \<not> parseable parse b \<longrightarrow>
      compareByDate parse a b < 0 \<and> compareByDate parse b a > 0) \<and>
   (parseable parse a \<and> parseable parse b \<longrightarrow>
      compareByDate parse a b = timeOf parse b - timeOf parse a) \<and>
   sorted_wrt (newestFirst parse) (sort_cmp (compareByDate parse) xs) \<and>
   sort_cmp (compareByDate isoParse)
     [dated ''Feb-20'' (Some ''2025-02-20''), dated ''Feb-10'' (Some ''2025-02-10''),
      dated ''missing'' None]
   = [dated ''Feb-20'' (Some ''2025-02-20''), dated ''Feb-10'' (Some ''2025-02-10''),
      dated ''missing'' None] \<and>
   sort_cmp (compareByDate isoParse)
     [dated ''missing'' None, dated ''Feb-10'' (Some ''2025-02-10''),
      dated ''Feb-20'' (Some ''2025-02-20'')]
   = [dated ''Feb-20'' (Some ''2025-02-20''), dated ''Feb-10'' (Some ''2025-02-10''),
      dated ''missing'' None]"
proof -
  have one: "parseable parse a \<and> \<not> parseable parse b \<longrightarrow>
      compareByDate parse a b < 0 \<and> compareByDate parse b a > 0"
    by (auto simp: compareByDate_def parseable_def split: option.splits)
  have two: "parseable parse a \<and> parseable parse b \<longrightarrow>
      compareByDate parse a b = timeOf parse b - timeOf parse a"
    by (auto simp: compareByDate_def parseable_def timeOf_def split: option.splits)
  show ?thesis
    using one two sort_cmp_newestFirst [of parse xs]
      sort_example_sorted_input sort_example_shuffled_input
    by blast
qed

theorem compareByDate_undated_last_witness:
  "parseable isoParse (dated ''Feb-20'' (Some ''2025-02-20'')) \<and>
   parseable isoParse (dated ''Feb-10'' (Some ''2025-02-10'')) \<and>
   \<not> parseable isoParse (dated ''missing'' None) \<and>
   compareByDate isoParse (dated ''Feb-20'' (Some ''2025-02-20'')) (dated ''missing'' None) < 0 \<and>
   compareByDate isoParse (dated ''missing'' None) (dated ''Feb-20'' (Some ''2025-02-20'')) > 0 \<and>
   compareByDate isoParse (dated ''Feb-20'' (Some ''2025-02-20'')) (dated ''Feb-10'' (Some ''2025-02-10''))
     = timeOf isoParse (dated ''Feb-10'' (Some ''2025-02-10''))
       - timeOf isoParse (dated ''Feb-20'' (Some ''2025-02-20'')) \<and>
   sorted_wrt (newestFirst isoParse)
     (sort_cmp (compareByDate isoParse)
        [dated ''missing'' None, dated ''Feb-10'' (Some ''2025-02-10''),
         dated ''Feb-20'' (Some ''2025-02-20'')])"
proof -
  have a: "parseable isoParse (dated ''Feb-20'' (Some ''2025-02-20''))" by code_simp
  have b: "parseable isoParse (dated ''Feb-10'' (Some ''2025-02-10''))" by code_simp
  have c: "\<not> parseable isoParse (dated ''missing'' None)" by code_simp
  show ?thesis
    using a b c
      compareByDate_undated_last [of isoParse "dated ''Feb-20'' (Some ''2025-02-20'')"
        "dated ''missing'' None"
        "[dated ''missing'' None, dated ''Feb-10'' (Some ''2025-02-10''),
          dated ''Feb-20'' (Some ''2025-02-20'')]"]
      compareByDate_undated_last [of isoParse "dated ''Feb-20'' (Some ''2025-02-20'')"
        "dated ''Feb-10'' (Some ''2025-02-10'')" "[]"]
    by blast
qed

subsection \<open>What the three filters keep\<close>

lemma set_keptArticles:
  "a \<in> set (keptArticles pf f news) \<longleftrightarrow> Some a \<in> set news \<and> articlePasses pf f (Some a)"
proof (induction news)
  case Nil
  then show ?case by (simp add: keptArticles_def)
next
  case (Cons x news)
  then show ?case
    by (cases x) (auto simp: keptArticles_def articlePasses_def)
qed

lemma set_handleSearch:
  "handleSearch pf f news = Some shown \<Longrightarrow>
   a \<in> set shown \<longleftrightarrow> Some a \<in> set news \<and> articlePasses pf f (Some a)"
  by (auto simp: handleSearch_def set_sort_cmp set_keptArticles split: if_splits)


lemma dateMatch_iff:
  "dateMatch pf f a \<longleftrightarrow>
     (truthy (published_date a) \<longrightarrow>
        timestampWithin (withinTimeFilter pf f) (parseDate pf) (published_date a))"
  by (auto simp: dateMatch_def truthy_def timestampWithin_def newDate_def split: option.splits)

lemma routeArticlePasses_iff:
  "routeArticlePasses parse f a \<longleftrightarrow>
     (selectedCategory f = ''All'' \<or> category a = Some (selectedCategory f)) \<and>
     (selectedSeverity f = ''All'' \<or> severity a = Some (selectedSeverity f)) \<and>
     (selectedCVE f = ''All'' \<or> cve a = Some (selectedCVE f)) \<and>
     truthy (published_date a) \<and>
     timestampWithin (isWithinDateRange parse f) parse (published_date a)"
  by (auto simp: routeArticlePasses_def Let_def timestampWithin_def split: option.splits)

lemma set_fetchPhishingSites:
  "s \<in> set (fetchPhishingSites parse cutoff f sites) \<longleftrightarrow>
     s \<in> set sites \<and>
     (timeRange f \<noteq> ''all'' \<longrightarrow> inTimeRange parse cutoff f s) \<and>
     (searchQuery f \<noteq> [] \<longrightarrow> matchesSearch f s) \<and>
     similarityScore s \<ge> thresholdScore f \<and>
     (targetFilter f \<noteq> ''all'' \<longrightarrow> targetPage s = targetFilter f) \<and>
     (activeTab f = ''detected'' \<longrightarrow> status s = ''active'' \<or> status s = ''monitoring'') \<and>
     (activeTab f = ''mitigated'' \<longrightarrow> status s = ''taken-down'')"
  by (auto simp: fetchPhishingSites_def Let_def)






text \<open>
  C2 (as stated): a record without a timestamp is excluded by every time window.
  On the news screen it is not: the first record of the stub backend, which has no
  \<open>published_date\<close>, is shown under the default window \<open>Latest\<close>.
\<close>

theorem handleSearch_shows_undated_counterexample:
  "timeFilter noFilters = ''Latest'' \<and>
   published_date (dated ''New Cyber Attack'' None) = None \<and>
   handleSearch (platformAt 0) noFilters
     [Some (dated ''New Cyber Attack'' None), Some (dated ''Security Breach'' None)]
   = Some [dated ''New Cyber Attack'' None, dated ''Security Breach'' None]"
  by code_simp

text \<open>
  C2 (amended): a record whose timestamp is missing or unparsable is excluded by
  \<open>filteredNews\<close>, and by \<open>fetchPhishingSites\<close> under every time range other than
  \<open>all\<close>; \<open>handleSearch\<close> excludes a record whose timestamp is present but unparsable,
  and lets a record without a timestamp pass its date test.
\<close>

theorem undated_records_excluded:
  "(\<not> parseable parse a \<longrightarrow> a \<notin> set (filteredNews parse g newsList)) \<and>
   (timeRange ph \<noteq> ''all'' \<and> newDate parse (detectedDate s) = None \<longrightarrow>
      s \<notin> set (fetchPhishingSites parse cutoff ph sites)) \<and>
   (truthy (published_date b) \<and> \<not> parseable (parseDate pf) b \<and>
    handleSearch pf f news = Some shown \<longrightarrow> b \<notin> set shown) \<and>
   (\<not> truthy (published_date c) \<longrightarrow> dateMatch pf f c)"
proof -
  have one: "\<not> parseable parse a \<longrightarrow> a \<notin> set (filteredNews parse g newsList)"
    by (auto simp: filteredNews_def routeArticlePasses_iff parseable_def timestampWithin_def
             split: option.splits)
  have two: "timeRange ph \<noteq> ''all'' \<and> newDate parse (detectedDate s) = None \<longrightarrow>
      s \<notin> set (fetchPhishingSites parse cutoff ph sites)"
    by (auto simp: set_fetchPhishingSites inTimeRange_def date_ge_def)
  have three: "truthy (published_date b) \<and> \<not> parseable (parseDate pf) b \<and>
    handleSearch pf f news = Some shown \<longrightarrow> b \<notin> set shown"
  proof (intro impI notI)
    assume h: "truthy (published_date b) \<and> \<not> parseable (parseDate pf) b \<and>
      handleSearch pf f news = Some shown" and "b \<in> set shown"
    then have "articlePasses pf f (Some b)"
      using set_handleSearch [of pf f news shown b] by blast
    then have "dateMatch pf f b" by (simp add: articlePasses_def)
    with h show False
      by (auto simp: dateMatch_iff parseable_def timestampWithin_def split: option.splits)
  qed
  have four: "\<not> truthy (published_date c) \<longrightarrow> dateMatch pf f c"
    by (simp add: dateMatch_iff)
  from one two three four show ?thesis by blast
qed

theorem undated_records_excluded_witness:
  "\<not> parseable isoParse (dated ''garbled'' (Some ''yesterday'')) \<and>
   dated ''garbled'' (Some ''yesterday'')
     \<notin> set (filteredNews isoParse noFilters [dated ''garbled'' (Some ''yesterday''), advisory]) \<and>
   timeRange searchFilters \<noteq> ''all'' \<and>
   newDate isoParse (detectedDate (mockSite ''https://tamm.example'' None 90 ''active'' ''main'')) = None \<and>
   mockSite ''https://tamm.example'' None 90 ''active'' ''main''
     \<notin> set (fetchPhishingSites isoParse cutoffAt searchFilters
              (mockSite ''https://tamm.example'' None 90 ''active'' ''main'' # mockPhishingSites)) \<and>
   truthy (published_date (dated ''garbled'' (Some ''yesterday''))) \<and>
   handleSearch (platformAt 0) noFilters [Some (dated ''garbled'' (Some ''yesterday'')), Some advisory]
     = Some [advisory] \<and>
   dated ''garbled'' (Some ''yesterday'') \<notin> set [advisory] \<and>
   \<not> truthy (published_date (dated ''undated'' None)) \<and>
   dateMatch (platformAt 0) noFilters (dated ''undated'' None)"
proof -
  have h1: "\<not> parseable isoParse (dated ''garbled'' (Some ''yesterday''))" by code_simp
  have h2: "timeRange searchFilters \<noteq> ''all'' \<and>
     newDate isoParse (detectedDate (mockSite ''https://tamm.example'' None 90 ''active'' ''main'')) = None"
    by (simp add: searchFilters_def mockSite_def newDate_def)
  have h3: "truthy (published_date (dated ''garbled'' (Some ''yesterday'')))"
    by (simp add: dated_def truthy_def)
  have h4: "handleSearch (platformAt 0) noFilters
      [Some (dated ''garbled'' (Some ''yesterday'')), Some advisory] = Some [advisory]"
    by code_simp
  have h5: "\<not> truthy (published_date (dated ''undated'' None))"
    by (simp add: dated_def truthy_def)
  show ?thesis
    using h1 h2 h3 h4 h5
      undated_records_excluded [of isoParse "dated ''garbled'' (Some ''yesterday'')" noFilters
        "[dated ''garbled'' (Some ''yesterday''), advisory]" searchFilters
        "mockSite ''https://tamm.example'' None 90 ''active'' ''main''" cutoffAt
        "mockSite ''https://tamm.example'' None 90 ''active'' ''main'' # mockPhishingSites"
        "dated ''garbled'' (Some ''yesterday'')" "platformAt 0" noFilters
        "[Some (dated ''garbled'' (Some ''yesterday'')), Some advisory]" "[advisory]"
        "dated ''undated'' None"]
    by (simp add: platformAt_def)
qed

text \<open>
  C6 (as stated): every categorical criterion is matched after lowercasing both values.
  On the phishing-route screen it is not: the category \<open>Malware\<close> of a record and the
  selection \<open>malware\<close> are equal after lowercasing, yet the record is filtered out; it is
  kept only when the selection has the same letter case.
\<close>

theorem filteredNews_case_sensitive_counterexample:
  "category advisory = Some ''Malware'' \<and>
   toLowerCase ''Malware'' = toLowerCase ''malware'' \<and>
   filteredNews isoParse (noFilters\<lparr>selectedCategory := ''malware''\<rparr>) [advisory] = [] \<and>
   filteredNews isoParse (noFilters\<lparr>selectedCategory := ''Malware''\<rparr>) [advisory] = [advisory]"
  by code_simp

text \<open>
  C6 (amended): on the news screen (\<open>handleSearch\<close>) a record passes the clause of a
  criterion that is neither \<open>All\<close> nor empty exactly when its field is present and equal
  to the criterion after lowercasing both, and it is kept exactly when it passes the
  clauses of category, severity and CVE and the date test. On the phishing-route
  screen (\<open>filteredNews\<close>) and on the phishing dashboard (\<open>fetchPhishingSites\<close>: target
  page, status) the record's field must be equal to the criterion as it is, letter
  case included.
\<close>

theorem categorical_matching:
  "(sel \<noteq> ''All'' \<and> sel \<noteq> [] \<longrightarrow>
      (fieldMatch sel field \<longleftrightarrow> map_option toLowerCase field = Some (toLowerCase sel))) \<and>
   (articlePasses pf f (Some a) \<longleftrightarrow>
      fieldMatch (selectedCategory f) (category a) \<and>
      fieldMatch (selectedSeverity f) (severity a) \<and>
      fieldMatch (selectedCVE f) (cve a) \<and>
      dateMatch pf f a) \<and>
   (routeArticlePasses parse g b \<longleftrightarrow>
      (selectedCategory g = ''All'' \<or> category b = Some (selectedCategory g)) \<and>
      (selectedSeverity g = ''All'' \<or> severity b = Some (selectedSeverity g)) \<and>
      (selectedCVE g = ''All'' \<or> cve b = Some (selectedCVE g)) \<and>
      truthy (published_date b) \<and>
      timestampWithin (isWithinDateRange parse g) parse (published_date b)) \<and>
   (s \<in> set (fetchPhishingSites parse cutoff ph sites) \<longleftrightarrow>
      s \<in> set sites \<and>
      (timeRange ph \<noteq> ''all'' \<longrightarrow> inTimeRange parse cutoff ph s) \<and>
      (searchQuery ph \<noteq> [] \<longrightarrow> matchesSearch ph s) \<and>
      similarityScore s \<ge> thresholdScore ph \<and>
      (targetFilter ph \<noteq> ''all'' \<longrightarrow> targetPage s = targetFilter ph) \<and>
      (activeTab ph = ''detected'' \<longrightarrow> status s = ''active'' \<or> status s = ''monitoring'') \<and>
      (activeTab ph = ''mitigated'' \<longrightarrow> status s = ''taken-down''))"
proof -
  have one: "sel \<noteq> ''All'' \<and> sel \<noteq> [] \<longrightarrow>
      (fieldMatch sel field \<longleftrightarrow> map_option toLowerCase field = Some (toLowerCase sel))"
    by (cases field) (auto simp: fieldMatch_def truthy_def toLowerCase_def)
  have two: "articlePasses pf f (Some a) \<longleftrightarrow>
      fieldMatch (selectedCategory f) (category a) \<and>
      fieldMatch (selectedSeverity f) (severity a) \<and>
      fieldMatch (selectedCVE f) (cve a) \<and>
      dateMatch pf f a"
    by (simp add: articlePasses_def)
  show ?thesis
    using one two routeArticlePasses_iff [of parse g b]
      set_fetchPhishingSites [of s parse cutoff ph sites]
    by blast
qed

theorem categorical_matching_witness:
  "selectedCategory strictFilters \<noteq> ''All'' \<and> selectedCategory strictFilters \<noteq> [] \<and>
   fieldMatch (selectedCategory strictFilters) (category advisory) \<and>
   map_option toLowerCase (category advisory) = Some (toLowerCase (selectedCategory strictFilters)) \<and>
   articlePasses (platformAt 0) strictFilters (Some advisory) \<and>
   routeArticlePasses isoParse exactFilters advisory \<and>
   category advisory = Some (selectedCategory exactFilters) \<and>
   hd mockPhishingSites \<in> set (fetchPhishingSites isoParse cutoffAt searchFilters mockPhishingSites) \<and>
   targetFilter searchFilters \<noteq> ''all'' \<and>
   targetPage (hd mockPhishingSites) = targetFilter searchFilters \<and>
   activeTab searchFilters = ''detected'' \<and>
   (status (hd mockPhishingSites) = ''active'' \<or> status (hd mockPhishingSites) = ''monitoring'')"
proof -
  have h1: "selectedCategory strictFilters \<noteq> ''All'' \<and> selectedCategory strictFilters \<noteq> []"
    by (simp add: strictFilters_def)
  have h2: "map_option toLowerCase (category advisory)
              = Some (toLowerCase (selectedCategory strictFilters))"
    by code_simp
  have h3: "articlePasses (platformAt 0) strictFilters (Some advisory)" by code_simp
  have h4: "routeArticlePasses isoParse exactFilters advisory" by code_simp
  have h5: "selectedCategory exactFilters \<noteq> ''All''" by (simp add: exactFilters_def)
  have h6: "hd mockPhishingSites
              \<in> set (fetchPhishingSites isoParse cutoffAt searchFilters mockPhishingSites)"
    by code_simp
  have h7: "targetFilter searchFilters \<noteq> ''all'' \<and> activeTab searchFilters = ''detected''"
    by (simp add: searchFilters_def)
  show ?thesis
    using h1 h2 h3 h4 h5 h6 h7
      categorical_matching [of "selectedCategory strictFilters" "category advisory"
        "platformAt 0" strictFilters advisory isoParse exactFilters advisory
        "hd mockPhishingSites" cutoffAt searchFilters mockPhishingSites]
    by blast
qed

subsection \<open>The end of the custom date range\<close>

text \<open>
  Where local time is not behind UTC, the end bound of a date-only end date \<open>d\<close> (days
  since the epoch) admits exactly the instants whose local day is \<open>d\<close> or earlier.
\<close>

lemma day_le_iff: "(x::int) div 86400000 \<le> d \<longleftrightarrow> x < d * 86400000 + 86400000"
proof -
  define q r where "q = x div 86400000" and "r = x mod 86400000"
  have "x = 86400000 * q + r"
    unfolding q_def r_def by (rule mult_div_mod_eq [symmetric])
  moreover have "0 \<le> r" and "r < 86400000"
    unfolding r_def by simp_all
  ultimately have "q \<le> d \<longleftrightarrow> x < d * 86400000 + 86400000" by linarith
  then show ?thesis by (simp only: q_def)
qed

lemma end_bound_east_of_utc:
  assumes "0 \<le> tz" and "tz < msPerDay"
    and "setHoursEndOfDay tz (Some (d * msPerDay)) = Some e"
  shows "t \<le> e \<longleftrightarrow> (t + tz) div msPerDay \<le> d"
proof -
  have "(d * 86400000 + tz) mod 86400000 = tz mod 86400000"
    by (rule mod_mult_self3)
  also have "\<dots> = tz"
    using assms(1,2) by (simp add: msPerDay_def)
  finally have m: "(d * 86400000 + tz) mod 86400000 = tz" .
  from assms(3) have "e = d * 86400000 + tz - (d * 86400000 + tz) mod 86400000 + 86399999 - tz"
    by (simp add: setHoursEndOfDay_def Let_def msPerDay_def)
  with m have e: "e = d * 86400000 + 86399999 - tz" by simp
  have "(t + tz) div 86400000 \<le> d \<longleftrightarrow> t + tz < d * 86400000 + 86400000"
    by (rule day_le_iff)
  with e show ?thesis by (simp only: msPerDay_def) linarith
qed

text \<open>
  C10. Five hours west of UTC, with the end date 2025-02-20 selected, the end bound is
  the last millisecond of 19 February local time, and a record of noon, 20 February
  local time (17:00 UTC) is filtered out.
\<close>

theorem end_date_west_of_utc_excludes_end_day:
  "endDate rangeFilters = ''2025-02-20'' \<and>
   endDateObj (platformAt (- 18000000)) rangeFilters = Some (Some 1740027599999) \<and>
   (1740027599999 + (- 18000000)) div msPerDay = daysFromCivil 2025 2 19 \<and>
   isoParse ''2025-02-20T17:00:00Z'' = Some 1740070800000 \<and>
   (1740070800000 + (- 18000000)) div msPerDay = daysFromCivil 2025 2 20 \<and>
   handleSearch (platformAt (- 18000000)) rangeFilters
     [Some (dated ''Noon on the end date'' (Some ''2025-02-20T17:00:00Z''))]
   = Some []"
  by code_simp

subsection \<open>Pages\<close>

lemma mset_insert_cmp: "mset (insert_cmp c x ys) = add_mset x (mset ys)"
  by (induction ys) auto

lemma mset_foldl_insert_cmp:
  "mset (foldl (\<lambda>acc x. insert_cmp c x acc) acc xs) = mset acc + mset xs"
  by (induction xs arbitrary: acc) (auto simp: mset_insert_cmp)

lemma mset_sort_cmp: "mset (sort_cmp c xs) = mset xs"
  by (simp add: sort_cmp_def mset_foldl_insert_cmp)

lemma concat_pages: "concat (map (\<lambda>p. pageOfRecords xs p n) [1..<Suc k]) = take (k * n) xs"
proof (induction k)
  case 0
  then show ?case by simp
next
  case (Suc k)
  have "concat (map (\<lambda>p. pageOfRecords xs p n) [1..<Suc (Suc k)])
          = take (k * n) xs @ take n (drop (k * n) xs)"
    using Suc by (simp add: pageOfRecords_def)
  also have "\<dots> = take (k * n + n) xs"
    by (simp add: take_add)
  finally show ?case by (simp add: add.commute)
qed

lemma ceilDiv_covers: "0 < n \<Longrightarrow> a \<le> ceilDiv a n * n"
proof -
  assume n: "0 < n"
  have "a + n - 1 = (a + n - 1) div n * n + (a + n - 1) mod n"
    by simp
  moreover have "(a + n - 1) mod n < n"
    using n by simp
  ultimately have "a + n - 1 < (a + n - 1) div n * n + n" by linarith
  with n show ?thesis by (simp add: ceilDiv_def)
qed

lemma all_pages:
  assumes "0 < n" and "ceilDiv (length xs) n \<le> k"
  shows "concat (map (\<lambda>p. pageOfRecords xs p n) [1..<Suc k]) = xs"
proof -
  have "length xs \<le> ceilDiv (length xs) n * n"
    using assms(1) by (rule ceilDiv_covers)
  also have "\<dots> \<le> k * n"
    using assms(2) by simp
  finally have "take (k * n) xs = xs" by simp
  with concat_pages [of xs n k] show ?thesis by (simp only:)
qed

lemma page_beyond:
  assumes "0 < n" and "ceilDiv (length xs) n < page"
  shows "pageOfRecords xs page n = []"
proof -
  have "length xs \<le> ceilDiv (length xs) n * n"
    using assms(1) by (rule ceilDiv_covers)
  also have "\<dots> \<le> (page - 1) * n"
  proof (rule mult_le_mono1)
    from assms(2) show "ceilDiv (length xs) n \<le> page - 1" by linarith
  qed
  finally show ?thesis by (simp add: pageOfRecords_def)
qed

lemma fst_resultFilter:
  "fst (resultFilter passes cmp records p n) = pageOfRecords (sort_cmp cmp (filter passes records)) p n"
  by (simp add: resultFilter_def Let_def)

lemma snd_resultFilter:
  "snd (resultFilter passes cmp records p n) = length (sort_cmp cmp (filter passes records))"
  by (simp add: resultFilter_def Let_def)

lemma totalPagesSites_ge: "ceilDiv a pageSize \<le> totalPagesSites a"
  by (simp add: totalPagesSites_def Let_def)

text \<open>
  C4. For every collection, every criteria setting and every page size of at least 1,
  the pages 1 up to the last one (the ceiling of the number of matches over the page
  size, as the screens compute it), put one after the other, are the filtered, sorted
  result, which holds exactly the matching records, each as often as the collection
  does. This holds for the page counts of both paged screens.
\<close>

theorem pages_concatenate_to_result:
  "(1 \<le> n \<longrightarrow>
      concat (map (\<lambda>p. fst (resultFilter passes cmp records p n))
                [1..<Suc (ceilDiv (snd (resultFilter passes cmp records 1 n)) n)])
        = sort_cmp cmp (filter passes records)) \<and>
   concat (map (\<lambda>p. fst (resultFilter passes cmp records p pageSize))
             [1..<Suc (totalPagesSites (snd (resultFilter passes cmp records 1 pageSize)))])
     = sort_cmp cmp (filter passes records) \<and>
   concat (map (\<lambda>p. fst (resultFilter passes cmp records p 10))
             [1..<Suc (totalPagesThreats (snd (resultFilter passes cmp records 1 10)))])
     = sort_cmp cmp (filter passes records) \<and>
   mset (sort_cmp cmp (filter passes records)) = filter_mset passes (mset records)"
proof -
  let ?m = "sort_cmp cmp (filter passes records)"
  have one: "1 \<le> n \<longrightarrow>
      concat (map (\<lambda>p. fst (resultFilter passes cmp records p n))
                [1..<Suc (ceilDiv (snd (resultFilter passes cmp records 1 n)) n)]) = ?m"
  proof
    assume "1 \<le> n"
    then have "0 < n" by simp
    then show "concat (map (\<lambda>p. fst (resultFilter passes cmp records p n))
                [1..<Suc (ceilDiv (snd (resultFilter passes cmp records 1 n)) n)]) = ?m"
      unfolding fst_resultFilter snd_resultFilter by (rule all_pages) simp
  qed
  have two: "concat (map (\<lambda>p. fst (resultFilter passes cmp records p pageSize))
             [1..<Suc (totalPagesSites (snd (resultFilter passes cmp records 1 pageSize)))]) = ?m"
    unfolding fst_resultFilter snd_resultFilter
    by (rule all_pages) (simp_all add: pageSize_def totalPagesSites_ge [unfolded pageSize_def])
  have three: "concat (map (\<lambda>p. fst (resultFilter passes cmp records p 10))
             [1..<Suc (totalPagesThreats (snd (resultFilter passes cmp records 1 10)))]) = ?m"
    unfolding fst_resultFilter snd_resultFilter totalPagesThreats_def
    by (rule all_pages) simp_all
  have four: "mset ?m = filter_mset passes (mset records)"
    by (simp add: mset_sort_cmp)
  from one two three four show ?thesis by blast
qed

theorem pages_concatenate_to_result_witness:
  "(1::nat) \<le> 2 \<and>
   concat (map (\<lambda>p. fst (resultFilter (\<lambda>s. similarityScore s \<ge> 70) (\<lambda>a b. similarityScore b - similarityScore a)
                             mockPhishingSites p 2))
             [1..<Suc (ceilDiv (snd (resultFilter (\<lambda>s. similarityScore s \<ge> 70)
                                       (\<lambda>a b. similarityScore b - similarityScore a) mockPhishingSites 1 2)) 2)])
     = sort_cmp (\<lambda>a b. similarityScore b - similarityScore a)
         (filter (\<lambda>s. similarityScore s \<ge> 70) mockPhishingSites) \<and>
   map site_id (fst (resultFilter (\<lambda>s. similarityScore s \<ge> 70) (\<lambda>a b. similarityScore b - similarityScore a)
                       mockPhishingSites 1 2)) = [''ps-001'', ''ps-002''] \<and>
   map site_id (fst (resultFilter (\<lambda>s. similarityScore s \<ge> 70) (\<lambda>a b. similarityScore b - similarityScore a)
                       mockPhishingSites 2 2)) = [''ps-004'', ''ps-003''] \<and>
   snd (resultFilter (\<lambda>s. similarityScore s \<ge> 70) (\<lambda>a b. similarityScore b - similarityScore a)
          mockPhishingSites 1 2) = 4"
proof -
  have h: "(1::nat) \<le> 2" by simp
  have p1: "map site_id (fst (resultFilter (\<lambda>s. similarityScore s \<ge> 70)
              (\<lambda>a b. similarityScore b - similarityScore a) mockPhishingSites 1 2))
            = [''ps-001'', ''ps-002'']"
    by code_simp
  have p2: "map site_id (fst (resultFilter (\<lambda>s. similarityScore s \<ge> 70)
              (\<lambda>a b. similarityScore b - similarityScore a) mockPhishingSites 2 2))
            = [''ps-004'', ''ps-003'']"
    by code_simp
  have t: "snd (resultFilter (\<lambda>s. similarityScore s \<ge> 70)
              (\<lambda>a b. similarityScore b - similarityScore a) mockPhishingSites 1 2) = 4"
    by code_simp
  show ?thesis
    using h p1 p2 t
      pages_concatenate_to_result [of 2 "\<lambda>s. similarityScore s \<ge> 70"
        "\<lambda>a b. similarityScore b - similarityScore a" mockPhishingSites]
    by blast
qed

text \<open>
  C5. Page 1 is the first page: it holds the first records of the result. A page
  beyond the last one is empty, and the total that comes with it is still the number of
  filtered records; in particular page 1 of size 10 of an empty result is the empty
  page with total 0. The result filter has no error result, and for a total of 0 the
  phishing screen computes one page and the threats screen none.
\<close>

theorem page_beyond_last_is_empty:
  "fst (resultFilter passes cmp records 1 n) = take n (sort_cmp cmp (filter passes records)) \<and>
   (1 \<le> n \<and> ceilDiv (length (filter passes records)) n < page \<longrightarrow>
      resultFilter passes cmp records page n = ([], length (filter passes records))) \<and>
   (filter passes records = [] \<longrightarrow> resultFilter passes cmp records 1 10 = ([], 0)) \<and>
   totalPagesSites 0 = 1 \<and> totalPagesThreats 0 = 0"
proof -
  have one: "fst (resultFilter passes cmp records 1 n) = take n (sort_cmp cmp (filter passes records))"
    by (simp add: resultFilter_def Let_def pageOfRecords_def)
  have two: "1 \<le> n \<and> ceilDiv (length (filter passes records)) n < page \<longrightarrow>
      resultFilter passes cmp records page n = ([], length (filter passes records))"
    by (simp add: resultFilter_def Let_def page_beyond length_sort_cmp)
  have three: "filter passes records = [] \<longrightarrow> resultFilter passes cmp records 1 10 = ([], 0)"
    by (simp add: resultFilter_def Let_def pageOfRecords_def sort_cmp_def)
  have four: "totalPagesSites 0 = 1 \<and> totalPagesThreats 0 = 0"
    by (simp add: totalPagesSites_def totalPagesThreats_def ceilDiv_def pageSize_def)
  from one two three four show ?thesis by blast
qed

theorem page_beyond_last_is_empty_witness:
  "(1::nat) \<le> 2 \<and>
   ceilDiv (length (filter (\<lambda>s. similarityScore s \<ge> 70) mockPhishingSites)) 2 < 3 \<and>
   resultFilter (\<lambda>s. similarityScore s \<ge> 70) (\<lambda>a b. similarityScore b - similarityScore a)
     mockPhishingSites 3 2 = ([], 4) \<and>
   filter (\<lambda>s. similarityScore s \<ge> 100) mockPhishingSites = [] \<and>
   resultFilter (\<lambda>s. similarityScore s \<ge> 100) (\<lambda>a b. similarityScore b - similarityScore a)
     mockPhishingSites 1 10 = ([], 0)"
proof -
  have h1: "(1::nat) \<le> 2" by simp
  have h2: "ceilDiv (length (filter (\<lambda>s. similarityScore s \<ge> 70) mockPhishingSites)) 2 < 3"
    by code_simp
  have h3: "filter (\<lambda>s. similarityScore s \<ge> 100) mockPhishingSites = []"
    by code_simp
  have h4: "length (filter (\<lambda>s. similarityScore s \<ge> 70) mockPhishingSites) = 4"
    by code_simp
  show ?thesis
    using h1 h2 h3 h4
      page_beyond_last_is_empty [of "\<lambda>s. similarityScore s \<ge> 70"
        "\<lambda>a b. similarityScore b - similarityScore a" mockPhishingSites 2 3]
      page_beyond_last_is_empty [of "\<lambda>s. similarityScore s \<ge> 100"
        "\<lambda>a b. similarityScore b - similarityScore a" mockPhishingSites 10 1]
    by simp
qed

subsection \<open>Polling\<close>

text \<open>
  A poll clears the interval of its render's \<open>scanInterval\<close>, never another one. So the
  interval that \<open>startScan\<close> creates survives every poll, unless the state already held
  the id that \<open>setInterval\<close> is about to return.
\<close>

lemma clearInterval_other: "i \<noteq> j \<Longrightarrow> j \<in> set (intervals p) \<Longrightarrow> j \<in> set (intervals (clearInterval i p))"
  by (simp add: clearInterval_def)

lemma stopPolling_other:
  "captured \<noteq> Some j \<Longrightarrow> j \<in> set (intervals p) \<Longrightarrow> j \<in> set (intervals (stopPolling captured p))"
  by (auto simp: stopPolling_def clearInterval_def split: option.splits)

lemma tick_other:
  "snd timer \<noteq> Some j \<Longrightarrow> j \<in> set (intervals p) \<Longrightarrow> j \<in> set (intervals (tick timer r p))"
  by (cases r) (auto simp: tick_def checkScanProgress_def Let_def stopPolling_def clearInterval_def
                      split: option.splits)

lemma runPolls_other:
  "snd timer \<noteq> Some j \<Longrightarrow> j \<in> set (intervals p) \<Longrightarrow> j \<in> set (intervals (runPolls timer rs p))"
  unfolding runPolls_def
  by (induction rs arbitrary: p) (simp_all add: tick_other)

lemma started_interval_survives:
  assumes "startScan p = (timer, q)" and "scanInterval p \<noteq> Some (nextInterval p)"
  shows "fst timer \<in> set (intervals (runPolls timer rs q))"
proof -
  from assms(1) have t: "timer = (nextInterval p, scanInterval p)"
    and q: "nextInterval p \<in> set (intervals q)"
    by (auto simp: startScan_def Let_def)
  from t assms(2) have "snd timer \<noteq> Some (fst timer)" by simp
  moreover from t q have "fst timer \<in> set (intervals q)" by simp
  ultimately show ?thesis by (rule runPolls_other)
qed

lemma unmountCleanup_other:
  "captured \<noteq> Some j \<Longrightarrow> j \<in> set (intervals p) \<Longrightarrow> j \<in> set (intervals (unmountCleanup captured p))"
  by (auto simp: unmountCleanup_def clearInterval_def split: option.splits)

text \<open>
  C7. For the status sequence running, running, completed the third poll triggers
  the refresh, but the interval 1 is still running afterwards: \<open>checkScanProgress\<close>
  tests the \<open>scanInterval\<close> of the render that started the scan, which is \<open>null\<close>. When
  the period has passed again a fourth request is issued, and with the status still
  completed the data is refreshed a second time.
\<close>

theorem poll_survives_completed:
  "scanSession [Snapshot ''running'', Snapshot ''running'', Snapshot ''completed'']
     = \<lparr>intervals = [1], nextInterval = 2, scanInterval = Some 1,
        scanInProgress = False, requests = 3, refreshes = 1\<rparr> \<and>
   scanSession [Snapshot ''running'', Snapshot ''running'', Snapshot ''completed'',
                Snapshot ''completed'']
     = \<lparr>intervals = [1], nextInterval = 2, scanInterval = Some 1,
        scanInProgress = False, requests = 4, refreshes = 2\<rparr>"
  by code_simp

text \<open>
  C8. The page is unmounted while a scan is polled. The cleanup tests the
  \<open>scanInterval\<close> of the first render, which is \<open>null\<close>, so the interval 1 of the scan
  keeps running, and two more scan-progress requests are issued after the unmount.
\<close>

theorem unmount_leaves_poll_running:
  "unmountSession [Snapshot ''running''] []
     = \<lparr>intervals = [1], nextInterval = 2, scanInterval = Some 1,
        scanInProgress = True, requests = 1, refreshes = 0\<rparr> \<and>
   unmountSession [Snapshot ''running''] [Snapshot ''running'', Snapshot ''running'']
     = \<lparr>intervals = [1], nextInterval = 2, scanInterval = Some 1,
        scanInProgress = True, requests = 3, refreshes = 0\<rparr>"
  by code_simp

subsection \<open>The source arrays\<close>

lemma preserves_refl: "preserves h h"
  by (simp add: preserves_def)

lemma preserves_trans: "preserves h1 h2 \<Longrightarrow> preserves h2 h3 \<Longrightarrow> preserves h1 h3"
  by (auto simp: preserves_def)

lemma alloc_preserves: "preserves h (snd (alloc xs h))"
  by (simp add: alloc_def preserves_def)

lemma alloc_result:
  "fst (alloc xs h) = nextAddr h \<and> arrays (snd (alloc xs h)) (nextAddr h) = xs \<and>
   nextAddr (snd (alloc xs h)) = Suc (nextAddr h)"
  by (simp add: alloc_def)

lemma sort_cmp_map_Some:
  "sort_cmp (compareElems p) (map Some xs) = map Some (sort_cmp (compareByDate p) xs)"
proof -
  have ins: "insert_cmp (compareElems p) (Some x) (map Some ys)
               = map Some (insert_cmp (compareByDate p) x ys)" for x ys
    by (induction ys) simp_all
  have "foldl (\<lambda>acc x. insert_cmp (compareElems p) x acc) (map Some acc) (map Some xs)
          = map Some (foldl (\<lambda>acc x. insert_cmp (compareByDate p) x acc) acc xs)" for acc
    by (induction xs arbitrary: acc) (simp_all add: ins)
  from this [of "[]"] show ?thesis by (simp add: sort_cmp_def rev_map)
qed

lemma filter_articlePasses: "filter (articlePasses pf f) news = map Some (keptArticles pf f news)"
proof (induction news)
  case Nil
  then show ?case by (simp add: keptArticles_def)
next
  case (Cons x news)
  then show ?case by (cases x) (auto simp: keptArticles_def articlePasses_def)
qed

lemma handleSearch_store_preserves: "preserves (heap pg) (heap (handleSearch_store pf f pg))"
  by (simp add: handleSearch_store_def filterArray_def spreadArray_def sortArray_def alloc_def
        preserves_def Let_def)

lemma handleSearch_store_result:
  assumes "handleSearch pf f (arrays (heap pg) (newsRef pg)) = Some shown"
  shows "arrays (heap (handleSearch_store pf f pg)) (filteredNewsRef (handleSearch_store pf f pg))
           = map Some shown"
  using assms
  by (auto simp: handleSearch_store_def handleSearch_def filterArray_def spreadArray_def
        sortArray_def alloc_def Let_def filter_articlePasses sort_cmp_map_Some
        split: if_splits)

lemma filteredNews_store_result:
  "arrays (snd (filteredNews_store parse g a h)) (fst (filteredNews_store parse g a h))
     = filteredNews parse g (arrays h a)"
  by (simp add: filteredNews_store_def filterArray_def alloc_def filteredNews_def)

lemma fetchPhishingSites_store_preserves:
  "preserves h (snd (fetchPhishingSites_store parse cutoff f a h))"
  by (simp add: fetchPhishingSites_store_def filterArray_def spreadArray_def alloc_def
        preserves_def Let_def)

lemma fetchPhishingSites_store_result:
  "arrays (snd (fetchPhishingSites_store parse cutoff f a h))
     (fst (fetchPhishingSites_store parse cutoff f a h))
   = fetchPhishingSites parse cutoff f (arrays h a)"
  by (simp add: fetchPhishingSites_store_def fetchPhishingSites_def filterArray_def
        spreadArray_def alloc_def Let_def)

text \<open>
  C9. Filtering and sorting leave the source collection as it was. Every array that
  exists when \<open>handleSearch\<close>, \<open>filteredNews\<close> or \<open>fetchPhishingSites\<close> starts, the
  source array among them, holds the same records in the same order afterwards, and
  the state variable \<open>news\<close> still refers to the same array; the results are stored in
  arrays of their own (the sort works on a copy), and they are the filtered (and, on
  the news screen, sorted) lists. No callback assigns to a property of a record.
\<close>

theorem filters_leave_source_unchanged:
  "(a < nextAddr (heap pg) \<longrightarrow>
      arrays (heap (handleSearch_store pf f pg)) a = arrays (heap pg) a) \<and>
   newsRef (handleSearch_store pf f pg) = newsRef pg \<and>
   (handleSearch pf f (arrays (heap pg) (newsRef pg)) = Some shown \<longrightarrow>
      arrays (heap (handleSearch_store pf f pg)) (filteredNewsRef (handleSearch_store pf f pg))
        = map Some shown) \<and>
   (b < nextAddr h \<longrightarrow> arrays (snd (filteredNews_store parse g src h)) b = arrays h b) \<and>
   arrays (snd (filteredNews_store parse g src h)) (fst (filteredNews_store parse g src h))
     = filteredNews parse g (arrays h src) \<and>
   (c < nextAddr h' \<longrightarrow>
      arrays (snd (fetchPhishingSites_store parse cutoff ph src' h')) c = arrays h' c) \<and>
   arrays (snd (fetchPhishingSites_store parse cutoff ph src' h'))
     (fst (fetchPhishingSites_store parse cutoff ph src' h'))
     = fetchPhishingSites parse cutoff ph (arrays h' src')"
proof -
  have one: "a < nextAddr (heap pg) \<longrightarrow>
      arrays (heap (handleSearch_store pf f pg)) a = arrays (heap pg) a"
    using handleSearch_store_preserves [of pg pf f] by (simp add: preserves_def)
  have two: "newsRef (handleSearch_store pf f pg) = newsRef pg"
    by (simp add: handleSearch_store_def Let_def split_def)
  have three: "handleSearch pf f (arrays (heap pg) (newsRef pg)) = Some shown \<longrightarrow>
      arrays (heap (handleSearch_store pf f pg)) (filteredNewsRef (handleSearch_store pf f pg))
        = map Some shown"
    using handleSearch_store_result by blast
  have four: "b < nextAddr h \<longrightarrow> arrays (snd (filteredNews_store parse g src h)) b = arrays h b"
    using alloc_preserves [of h "filter (routeArticlePasses parse g) (arrays h src)"]
    by (simp add: filteredNews_store_def filterArray_def preserves_def)
  have six: "c < nextAddr h' \<longrightarrow>
      arrays (snd (fetchPhishingSites_store parse cutoff ph src' h')) c = arrays h' c"
    using fetchPhishingSites_store_preserves [of h' parse cutoff ph src']
    by (simp add: preserves_def)
  from one two three four six filteredNews_store_result [of parse g src h]
    fetchPhishingSites_store_result [of parse cutoff ph src' h']
  show ?thesis by blast
qed

theorem filters_leave_source_unchanged_witness:
  "newsRef loadedPage < nextAddr (heap loadedPage) \<and>
   arrays (heap (handleSearch_store (platformAt 0) noFilters loadedPage)) (newsRef loadedPage)
     = [Some (dated ''undated'' None), None, Some advisory] \<and>
   newsRef (handleSearch_store (platformAt 0) noFilters loadedPage) = 0 \<and>
   handleSearch (platformAt 0) noFilters (arrays (heap loadedPage) (newsRef loadedPage))
     = Some [advisory, dated ''undated'' None] \<and>
   arrays (heap (handleSearch_store (platformAt 0) noFilters loadedPage))
     (filteredNewsRef (handleSearch_store (platformAt 0) noFilters loadedPage))
     = [Some advisory, Some (dated ''undated'' None)] \<and>
   (0::nat) < nextAddr routeStore \<and>
   arrays (snd (filteredNews_store isoParse exactFilters 0 routeStore)) 0
     = [dated ''undated'' None, advisory] \<and>
   (0::nat) < nextAddr mockStore \<and>
   arrays (snd (fetchPhishingSites_store isoParse cutoffAt searchFilters 0 mockStore)) 0
     = mockPhishingSites"
proof -
  have h1: "newsRef loadedPage < nextAddr (heap loadedPage)"
    by (simp add: loadedPage_def)
  have h2: "handleSearch (platformAt 0) noFilters (arrays (heap loadedPage) (newsRef loadedPage))
              = Some [advisory, dated ''undated'' None]"
    by code_simp
  have h3: "arrays (heap loadedPage) (newsRef loadedPage)
              = [Some (dated ''undated'' None), None, Some advisory]"
    by (simp add: loadedPage_def)
  have h4: "newsRef loadedPage = 0" by (simp add: loadedPage_def)
  have h5: "(0::nat) < nextAddr routeStore \<and> arrays routeStore 0 = [dated ''undated'' None, advisory]"
    by (simp add: routeStore_def)
  have h6: "(0::nat) < nextAddr mockStore \<and> arrays mockStore 0 = mockPhishingSites"
    by (simp add: mockStore_def)
  show ?thesis
    using h1 h2 h3 h4 h5 h6
      filters_leave_source_unchanged [of "newsRef loadedPage" loadedPage "platformAt 0" noFilters
        "[advisory, dated ''undated'' None]" 0 routeStore isoParse exactFilters 0
        0 mockStore cutoffAt searchFilters 0]
    by simp
qed


end
